theory Spec2Isabelle
  imports Main
begin

section \<open>JavaScript values\<close>

text \<open>
  The gulpfile compares \<open>process.env\<close> with a string literal and tests a module-level
  object for truthiness. Both operations depend only on the kind of the value, so a small
  value type is enough: objects carry a reference (identity) and their string properties.
\<close>

datatype jsval =
    JUndefined
  | JBool bool
  | JString string
  | JObject nat "(string \<times> string) list"

text \<open>The strict equality operator \<open>===\<close>: operands of different kinds are never equal,
  and two objects are equal only when they are the same object.\<close>

fun strict_equals :: "jsval \<Rightarrow> jsval \<Rightarrow> bool" where
  "strict_equals JUndefined JUndefined = True"
| "strict_equals (JBool a) (JBool b) = (a = b)"
| "strict_equals (JString a) (JString b) = (a = b)"
| "strict_equals (JObject r _) (JObject r' _) = (r = r')"
| "strict_equals _ _ = False"

text \<open>The conversion to boolean that \<open>if (...)\<close> applies.\<close>

fun truthy :: "jsval \<Rightarrow> bool" where
  "truthy JUndefined = False"
| "truthy (JBool b) = b"
| "truthy (JString s) = (s \<noteq> [])"
| "truthy (JObject _ _) = True"

text \<open>\<open>process.env\<close> is the object that holds the environment variables of the process.\<close>

definition process_env :: "(string \<times> string) list \<Rightarrow> jsval" where
  "process_env vars = JObject 0 vars"

section \<open>Configuration\<close>

record config_t =
  epubName :: string
  sourceDirectoryName :: string
  buildDirectoryName :: string
  contentDirectoryName :: string
  devServerPort :: nat

definition config :: config_t where
  "config = \<lparr> epubName = ''Textbook'',
              sourceDirectoryName = ''src'',
              buildDirectoryName = ''build'',
              contentDirectoryName = ''EPUB'',
              devServerPort = 3000 \<rparr>"

text \<open>\<open>const devMode = process.env === 'development'\<close>, as a function of the environment
  object the process was started with.\<close>

definition devMode :: "jsval \<Rightarrow> bool" where
  "devMode env = strict_equals env (JString ''development'')"

subsection \<open>lodash \<open>kebabCase\<close>\<close>

text \<open>
  \<open>kebabCase\<close> removes apostrophes, splits the title into words, lower-cases them and joins
  them with a hyphen. lodash chooses between two word splitters with the test
  \<open>hasUnicodeWord\<close>; when the test is negative the words are the maximal runs of
  characters found by the \<open>asciiWords\<close> pattern. That branch is the one modelled here, and
  \<open>hasUnicodeWord\<close> says for which titles it is the branch taken.
\<close>

definition is_digit :: "char \<Rightarrow> bool" where
  "is_digit c = (let n = (of_char c :: nat) in 48 \<le> n \<and> n \<le> 57)"

definition is_upper :: "char \<Rightarrow> bool" where
  "is_upper c = (let n = (of_char c :: nat) in 65 \<le> n \<and> n \<le> 90)"

definition is_lower :: "char \<Rightarrow> bool" where
  "is_lower c = (let n = (of_char c :: nat) in 97 \<le> n \<and> n \<le> 122)"

definition is_alpha :: "char \<Rightarrow> bool" where
  "is_alpha c = (is_upper c \<or> is_lower c)"

text \<open>\<open>/[a-z][A-Z]|[A-Z]{2}[a-z]|[0-9][a-zA-Z]|[a-zA-Z][0-9]|[^a-zA-Z0-9 ]/\<close>, tested at
  every position of the string.\<close>

fun hasUnicodeWord :: "string \<Rightarrow> bool" where
  "hasUnicodeWord [] = False"
| "hasUnicodeWord (a # cs) =
     ((\<not> is_alpha a \<and> \<not> is_digit a \<and> a \<noteq> CHR '' '')
      \<or> (case cs of
            [] \<Rightarrow> False
          | b # ds \<Rightarrow>
              (is_lower a \<and> is_upper b)
              \<or> (is_digit a \<and> is_alpha b)
              \<or> (is_alpha a \<and> is_digit b)
              \<or> (case ds of [] \<Rightarrow> False
                           | c # _ \<Rightarrow> is_upper a \<and> is_upper b \<and> is_lower c))
      \<or> hasUnicodeWord cs)"

text \<open>\<open>/[^\x00-\x2f\x3a-\x40\x5b-\x60\x7b-\x7f]+/g\<close>: a word character is a digit, a
  letter, or any character above \<open>0x7f\<close>.\<close>

definition word_char :: "char \<Rightarrow> bool" where
  "word_char c = (is_digit c \<or> is_alpha c \<or> (of_char c :: nat) \<ge> 128)"

fun asciiWords_acc :: "string \<Rightarrow> string \<Rightarrow> string list" where
  "asciiWords_acc w [] = (if w = [] then [] else [rev w])"
| "asciiWords_acc w (c # cs) =
     (if word_char c then asciiWords_acc (c # w) cs
      else (if w = [] then [] else [rev w]) @ asciiWords_acc [] cs)"

definition asciiWords :: "string \<Rightarrow> string list" where
  "asciiWords s = asciiWords_acc [] s"

definition toLowerCase_char :: "char \<Rightarrow> char" where
  "toLowerCase_char c = (if is_upper c then char_of ((of_char c :: nat) + 32) else c)"

definition toLowerCase :: "string \<Rightarrow> string" where
  "toLowerCase s = map toLowerCase_char s"

fun join_with :: "string \<Rightarrow> string list \<Rightarrow> string" where
  "join_with sep [] = []"
| "join_with sep [w] = w"
| "join_with sep (w # ws) = w @ sep @ join_with sep ws"

definition kebabCase :: "string \<Rightarrow> string" where
  "kebabCase s =
     join_with ''-'' (map toLowerCase (asciiWords (filter (\<lambda>c. c \<noteq> CHR 0x27) s)))"

section \<open>Paths\<close>

text \<open>
  A path is the list of its segments. \<open>dirname\<close> stands for \<open>__dirname\<close>, the absolute
  directory of the gulpfile; \<open>path.resolve(__dirname, name)\<close> appends the segment.
\<close>

type_synonym path = "string list"

definition sourceDirectoryPath :: "path \<Rightarrow> path" where
  "sourceDirectoryPath dirname = dirname @ [sourceDirectoryName config]"

definition buildDirectoryPath :: "path \<Rightarrow> path" where
  "buildDirectoryPath dirname = dirname @ [buildDirectoryName config]"

definition sourceContentDirectoryPath :: "path \<Rightarrow> path" where
  "sourceContentDirectoryPath dirname =
     sourceDirectoryPath dirname @ [contentDirectoryName config]"

definition buildContentDirectoryPath :: "jsval \<Rightarrow> path \<Rightarrow> path" where
  "buildContentDirectoryPath env dirname =
     buildDirectoryPath dirname
       @ [kebabCase (epubName config) @ (if devMode env then ''.epub'' else '''')]
       @ [contentDirectoryName config]"

section \<open>Globs\<close>

text \<open>
  \<open>gulp.src\<close> takes glob patterns. A pattern is split at \<open>/\<close> into segment patterns: a
  literal name, \<open>*\<close>, \<open>*\<close> followed by a literal suffix (as in \<open>*.html\<close>), and the
  globstar \<open>**\<close>. The flag \<open>dot\<close> is the option of the same name: it is off for the
  patterns that select files, so that \<open>*\<close> and \<open>**\<close> skip every name that starts with a
  dot, and on for the negated patterns, which are handed over as ignore patterns.
\<close>

datatype segpat = Lit string | Star | StarSuffix string | GlobStar

definition dotfile :: "string \<Rightarrow> bool" where
  "dotfile s = (case s of [] \<Rightarrow> False | c # _ \<Rightarrow> c = CHR ''.'')"

definition ends_with :: "string \<Rightarrow> string \<Rightarrow> bool" where
  "ends_with suf s = (take (length suf) (rev s) = rev suf)"

fun seg_match :: "bool \<Rightarrow> segpat \<Rightarrow> string \<Rightarrow> bool" where
  "seg_match dot (Lit n) s = (s = n)"
| "seg_match dot Star s = (s \<noteq> [] \<and> (dot \<or> \<not> dotfile s))"
| "seg_match dot (StarSuffix suf) s = (ends_with suf s \<and> (dot \<or> \<not> dotfile s))"
| "seg_match dot GlobStar s = (dot \<or> \<not> dotfile s)"

fun glob_match :: "bool \<Rightarrow> segpat list \<Rightarrow> path \<Rightarrow> bool" where
  "glob_match dot [] [] = True"
| "glob_match dot [] (s # ss) = False"
| "glob_match dot (GlobStar # ps) [] = glob_match dot ps []"
| "glob_match dot (GlobStar # ps) (s # ss) =
     (glob_match dot ps (s # ss)
      \<or> (seg_match dot GlobStar s \<and> glob_match dot (GlobStar # ps) ss))"
| "glob_match dot (p # ps) [] = False"
| "glob_match dot (p # ps) (s # ss) = (seg_match dot p s \<and> glob_match dot ps ss)"

text \<open>A pattern of the gulpfile is a directory path followed by segment patterns:
  \<open>`${dir}/**/*`\<close> is \<open>under dir [GlobStar, Star]\<close>.\<close>

definition under :: "path \<Rightarrow> segpat list \<Rightarrow> segpat list" where
  "under dir ps = map Lit dir @ ps"

datatype glob = Pos "segpat list" | Neg "segpat list"

text \<open>A file is selected by a list of globs when a positive glob matches it and no
  negated glob that follows that positive glob matches it.\<close>

fun negated :: "glob list \<Rightarrow> path \<Rightarrow> bool" where
  "negated [] f = False"
| "negated (Pos ps # gs) f = negated gs f"
| "negated (Neg ps # gs) f = (glob_match True ps f \<or> negated gs f)"

fun src_match :: "glob list \<Rightarrow> path \<Rightarrow> bool" where
  "src_match [] f = False"
| "src_match (Pos ps # gs) f =
     ((glob_match False ps f \<and> \<not> negated gs f) \<or> src_match gs f)"
| "src_match (Neg ps # gs) f = src_match gs f"

section \<open>Transforms\<close>

datatype transform =
    SourcemapsInit
  | Sass
  | CleanCSS
  | SourcemapsWrite
  | Postcss
  | Rename string
  | ExtensionReplace string
  | Image
  | Uglify

text \<open>\<open>gulpif(condition, transform)\<close> passes the files through the transform when the
  condition holds and leaves them alone otherwise.\<close>

definition gulpif :: "bool \<Rightarrow> transform \<Rightarrow> transform list" where
  "gulpif condition t = (if condition then [t] else [])"

text \<open>Node's \<open>path.extname\<close> on a file name: the part from the last dot on, empty when
  there is no dot, when the only dot is the first character, and for \<open>..\<close>.\<close>

definition extname :: "string \<Rightarrow> string" where
  "extname name =
     (if CHR ''.'' \<notin> set name then []
      else let ext = CHR ''.'' # rev (takeWhile (\<lambda>c. c \<noteq> CHR ''.'') (rev name));
               stem = take (length name - length ext) name
           in if stem = [] \<or> name = ''..'' then [] else ext)"

text \<open>\<open>gulp-sass\<close> gives the compiled file the extension \<open>.css\<close> with \<open>replace-ext\<close>:
  the file name without its \<open>extname\<close>, then the new extension.\<close>

definition replace_ext :: "string \<Rightarrow> string \<Rightarrow> string" where
  "replace_ext ext name = take (length name - length (extname name)) name @ ext"

definition map_last :: "('a \<Rightarrow> 'a) \<Rightarrow> 'a list \<Rightarrow> 'a list" where
  "map_last f xs = (case rev xs of [] \<Rightarrow> [] | x # r \<Rightarrow> rev r @ [f x])"

text \<open>An absolute path as the string that \<open>file.path\<close> holds, and back.\<close>

definition path_string :: "path \<Rightarrow> string" where
  "path_string p = concat (map (\<lambda>s. CHR ''/'' # s) p)"

fun split_path_acc :: "string \<Rightarrow> string \<Rightarrow> path" where
  "split_path_acc w [] = (if w = [] then [] else [rev w])"
| "split_path_acc w (c # cs) =
     (if c = CHR ''/'' then (if w = [] then [] else [rev w]) @ split_path_acc [] cs
      else split_path_acc (c # w) cs)"

definition split_path :: "string \<Rightarrow> path" where
  "split_path s = split_path_acc [] s"

text \<open>\<open>String.prototype.replace\<close> with a string pattern: the first occurrence of the
  pattern is replaced, and a string without the pattern is left as it is.\<close>

fun replace_first :: "string \<Rightarrow> string \<Rightarrow> string \<Rightarrow> string" where
  "replace_first pat new [] = (if pat = [] then new else [])"
| "replace_first pat new (c # cs) =
     (if take (length pat) (c # cs) = pat then new @ drop (length pat) (c # cs)
      else c # replace_first pat new cs)"

text \<open>\<open>gulp-ext-replace\<close> sets \<open>file.path\<close> to
  \<open>file.path.replace(path.extname(file.path), ext)\<close>: the first occurrence of the file's
  extension in its whole path is replaced, wherever it is.\<close>

definition ext_replace_path :: "string \<Rightarrow> path \<Rightarrow> path" where
  "ext_replace_path ext p =
     split_path
       (replace_first (case rev p of [] \<Rightarrow> [] | n # _ \<Rightarrow> extname n) ext (path_string p))"

text \<open>A file on its way through a stage: \<open>file.base\<close> and \<open>file.path\<close>.\<close>

record vinyl =
  file_base :: path
  file_path :: path

text \<open>What a transform does to the path of a file. The transforms that only change
  contents leave it alone; \<open>rename({dirname: d})\<close> puts the file name into the
  directory \<open>d\<close> below the base.\<close>

fun transform_file :: "transform \<Rightarrow> vinyl \<Rightarrow> vinyl" where
  "transform_file (ExtensionReplace ext) v =
     v\<lparr>file_path := ext_replace_path ext (file_path v)\<rparr>"
| "transform_file Sass v = v\<lparr>file_path := map_last (replace_ext ''.css'') (file_path v)\<rparr>"
| "transform_file (Rename d) v =
     (case rev (file_path v) of
        [] \<Rightarrow> v
      | n # _ \<Rightarrow> v\<lparr>file_path := file_base v @ [d, n]\<rparr>)"
| "transform_file _ v = v"

text \<open>\<open>file.relative\<close> is \<open>path.relative(file.base, file.path)\<close>: one \<open>..\<close> for every
  segment of the base after the common prefix, then the rest of the path.
  \<open>gulp.dest(dir)\<close> writes the file to \<open>path.resolve(dir, file.relative)\<close>.\<close>

fun relative :: "path \<Rightarrow> path \<Rightarrow> path" where
  "relative (a # from) (b # to) =
     (if a = b then relative from to
      else replicate (length (a # from)) ''..'' @ (b # to))"
| "relative from to = replicate (length from) ''..'' @ to"

definition resolve :: "path \<Rightarrow> path \<Rightarrow> path" where
  "resolve dir rel =
     fold (\<lambda>s acc. if s = ''..'' then butlast acc
                    else if s = ''.'' \<or> s = [] then acc
                    else acc @ [s]) rel dir"

section \<open>Pipeline stages\<close>

text \<open>A stage is \<open>gulp.src(globs, {base}).pipe(...) ... .pipe(gulp.dest(dest))\<close>. The
  base is the part of the positive glob before its first wildcard unless the options
  give one.\<close>

record stage =
  globs :: "glob list"
  base :: path
  pipes :: "transform list"
  dest :: path

definition copyFiles :: "jsval \<Rightarrow> path \<Rightarrow> stage" where
  "copyFiles env dirname =
     \<lparr> globs = [ Pos (under (sourceContentDirectoryPath dirname) [GlobStar, Star]),
                 Neg (under (sourceContentDirectoryPath dirname) [Lit ''html'', GlobStar]),
                 Neg (under (sourceContentDirectoryPath dirname) [Lit ''scss'', GlobStar]),
                 Neg (under (sourceContentDirectoryPath dirname) [Lit ''images'', GlobStar]),
                 Neg (under (sourceContentDirectoryPath dirname) [Lit ''js'', GlobStar]) ],
       base = sourceContentDirectoryPath dirname,
       pipes = [],
       dest = buildContentDirectoryPath env dirname \<rparr>"

definition HTMLSource :: "path \<Rightarrow> segpat list" where
  "HTMLSource dirname =
     under (sourceContentDirectoryPath dirname)
       [Lit ''html'', GlobStar, StarSuffix ''.html'']"

definition html :: "jsval \<Rightarrow> path \<Rightarrow> stage" where
  "html env dirname =
     \<lparr> globs = [Pos (HTMLSource dirname)],
       base = sourceContentDirectoryPath dirname @ [''html''],
       pipes = [],
       dest = buildContentDirectoryPath env dirname @ [''xhtml''] \<rparr>"

definition xhtml :: "jsval \<Rightarrow> path \<Rightarrow> stage" where
  "xhtml env dirname =
     \<lparr> globs = [Pos (HTMLSource dirname)],
       base = sourceContentDirectoryPath dirname @ [''html''],
       pipes = [ExtensionReplace ''.xhtml''],
       dest = buildContentDirectoryPath env dirname @ [''xhtml''] \<rparr>"

definition CSSSource :: "path \<Rightarrow> segpat list" where
  "CSSSource dirname =
     under (sourceContentDirectoryPath dirname)
       [Lit ''scss'', GlobStar, StarSuffix ''.scss'']"

definition css :: "jsval \<Rightarrow> path \<Rightarrow> stage" where
  "css env dirname =
     \<lparr> globs = [Pos (under (sourceContentDirectoryPath dirname)
                        [Lit ''scss'', Lit ''styles.scss''])],
       base = sourceContentDirectoryPath dirname,
       pipes = gulpif (devMode env) SourcemapsInit
               @ [Sass]
               @ gulpif (\<not> devMode env) CleanCSS
               @ gulpif (devMode env) SourcemapsWrite
               @ [Postcss, Rename ''css''],
       dest = buildContentDirectoryPath env dirname \<rparr>"

definition imageSource :: "path \<Rightarrow> segpat list" where
  "imageSource dirname =
     under (sourceContentDirectoryPath dirname) [Lit ''images'', Star]"

definition images :: "jsval \<Rightarrow> path \<Rightarrow> stage" where
  "images env dirname =
     \<lparr> globs = [Pos (imageSource dirname)],
       base = sourceContentDirectoryPath dirname @ [''images''],
       pipes = [Image],
       dest = buildContentDirectoryPath env dirname @ [''images''] \<rparr>"

definition JSSource :: "path \<Rightarrow> segpat list" where
  "JSSource dirname =
     under (sourceContentDirectoryPath dirname) [Lit ''js'', Star]"

definition js :: "jsval \<Rightarrow> path \<Rightarrow> stage" where
  "js env dirname =
     \<lparr> globs = [Pos (JSSource dirname)],
       base = sourceContentDirectoryPath dirname @ [''js''],
       pipes = gulpif (\<not> devMode env) Uglify,
       dest = buildContentDirectoryPath env dirname \<rparr>"

text \<open>The path a stage writes a source file to: nothing when the stage does not select
  the file, otherwise the file goes through the transforms and is written below the
  destination directory under its relative path.\<close>

definition stage_output :: "stage \<Rightarrow> path \<Rightarrow> path option" where
  "stage_output st f =
     (if src_match (globs st) f
      then let v = fold transform_file (pipes st) \<lparr>file_base = base st, file_path = f\<rparr>
           in Some (resolve (dest st) (relative (file_base v) (file_path v)))
      else None)"

text \<open>The content pipeline stages, in the order in which the build tasks run them. The
  markup stage is \<open>html\<close> or \<open>xhtml\<close>; both select the same files.\<close>

definition content_stages :: "jsval \<Rightarrow> path \<Rightarrow> stage list" where
  "content_stages env dirname =
     [copyFiles env dirname, html env dirname, images env dirname,
      css env dirname, js env dirname]"

definition matching_stages :: "jsval \<Rightarrow> path \<Rightarrow> path \<Rightarrow> stage list" where
  "matching_stages env dirname f =
     filter (\<lambda>st. src_match (globs st) f) (content_stages env dirname)"

section \<open>Packaging\<close>

text \<open>
  A tree is the list of its nodes, regular files with their contents and directories,
  each with its absolute path. \<open>zipEpub\<close> selects \<open>`${buildDirectoryPath}/**/*`\<close>,
  which matches directories as well as files, and hands what is selected to \<open>zip\<close>.
  \<open>zip\<close> stores every file and every directory it receives under its path relative to
  the base of the glob. When it has received something it emits one archive under the
  given name, which \<open>gulp.dest('.')\<close> writes into the working directory \<open>cwd\<close> of the
  process; when it has received nothing it emits nothing, and no archive is written.
\<close>

datatype node = File string | Directory

type_synonym tree = "(path \<times> node) list"

record archive =
  archive_path :: path
  entries :: "(path \<times> node) list"

definition archive_name :: string where
  "archive_name = kebabCase (epubName config) @ ''.epub''"

definition zipEpub :: "path \<Rightarrow> path \<Rightarrow> tree \<Rightarrow> archive option" where
  "zipEpub dirname cwd fs =
     (let selected =
            filter (\<lambda>(f, n). src_match [Pos (under (buildDirectoryPath dirname)
                                                   [GlobStar, Star])] f) fs
      in if selected = [] then None
         else Some \<lparr> archive_path = cwd @ [archive_name],
                     entries = map (\<lambda>(f, n). (relative (buildDirectoryPath dirname) f, n))
                                 selected \<rparr>)"

definition listing :: "archive \<Rightarrow> path list" where
  "listing a = map fst (entries a)"

text \<open>The regular files among the nodes of a tree or the entries of an archive.\<close>

definition files_of :: "(path \<times> node) list \<Rightarrow> (path \<times> string) list" where
  "files_of ns =
     List.map_filter (\<lambda>(p, n). case n of File c \<Rightarrow> Some (p, c) | Directory \<Rightarrow> None) ns"

section \<open>Events of the side-effecting tasks\<close>

text \<open>
  \<open>validate\<close>, \<open>serve\<close> and \<open>reload\<close> receive the callback \<open>done\<close> and signal their
  completion by calling it: without an argument for success, with an error for failure.
  What they do is recorded as a list of events in the order in which they happen.
\<close>

datatype event =
    Exec string
  | ChildFinished
  | SpawnError string
  | ConsoleLog string
  | BrowserInit
  | BrowserReload
  | Done "string option"
  | Throw string

text \<open>The completion signal of a task is its first call of \<open>done\<close>, or the exception
  that ends its body before it has called \<open>done\<close>: \<open>Some None\<close> is success,
  \<open>Some (Some e)\<close> is failure with \<open>e\<close>, and \<open>None\<close> means the task never signals.\<close>

fun completion :: "event list \<Rightarrow> string option option" where
  "completion [] = None"
| "completion (Done r # es) = Some r"
| "completion (Throw e # es) = Some (Some e)"
| "completion (e # es) = completion es"

subsection \<open>Validation\<close>

text \<open>The command line that \<open>validate\<close> passes to \<open>exec\<close>.\<close>

definition validate_command :: string where
  "validate_command =
     ''java -jar bin/epubcheck-4.0.2/epubcheck.jar '' @ epubName config @ ''.epub > ''
       @ epubName config @ ''.epub.errors 2>&1''"

text \<open>How the child process started by \<open>exec\<close> ends: it exits with a status, having
  written to its standard output and standard error, or it could not be spawned, with
  the given error code.\<close>

datatype child_outcome = Exited int string string | SpawnFailed string

text \<open>Node reports the spawn errors \<open>EACCES\<close>, \<open>EAGAIN\<close>, \<open>EMFILE\<close>, \<open>ENFILE\<close> and
  \<open>ENOENT\<close> later, through the callback; with any other spawn error \<open>exec\<close> throws.\<close>

definition spawn_throws :: "string \<Rightarrow> bool" where
  "spawn_throws code =
     (code \<notin> set [''EACCES'', ''EAGAIN'', ''EMFILE'', ''ENFILE'', ''ENOENT''])"

fun exec_throws :: "child_outcome \<Rightarrow> bool" where
  "exec_throws (Exited code out err) = False"
| "exec_throws (SpawnFailed code) = spawn_throws code"

text \<open>The arguments \<open>(err, stdout, stderr)\<close> that \<open>exec\<close> passes to its callback: \<open>err\<close> is
  \<open>null\<close> exactly when the child exited with status 0, and nothing has been captured
  when the child could not be spawned.\<close>

fun exec_callback_args :: "child_outcome \<Rightarrow> string option \<times> string \<times> string" where
  "exec_callback_args (Exited code out err) =
     (if code = 0 then None else Some ''Command failed'', out, err)"
| "exec_callback_args (SpawnFailed code) = (Some code, [], [])"

text \<open>The callback given to \<open>exec\<close>:
  \<open>function(err, stdout, stderr) { if (err) { console.log(stderr); } console.log(stdout); }\<close>\<close>

fun validate_callback :: "string option \<times> string \<times> string \<Rightarrow> event list" where
  "validate_callback (err, stdout, stderr) =
     (if err \<noteq> None then [ConsoleLog stderr] else []) @ [ConsoleLog stdout]"

text \<open>The body of \<open>validate\<close> calls \<open>exec\<close> and then \<open>done()\<close>. When \<open>exec\<close> throws,
  the body ends there and \<open>done\<close> is never called. Otherwise the body runs to its end,
  and the callback runs in a later turn of the event loop, once the child has
  finished or the spawn error has been reported.\<close>

definition validate_body :: "event list" where
  "validate_body = [Exec validate_command, Done None]"

fun validate :: "child_outcome \<Rightarrow> event list" where
  "validate (Exited code out err) =
     validate_body @ [ChildFinished]
       @ validate_callback (exec_callback_args (Exited code out err))"
| "validate (SpawnFailed code) =
     (if spawn_throws code then [Exec validate_command, Throw code]
      else validate_body @ [SpawnError code]
             @ validate_callback (exec_callback_args (SpawnFailed code)))"

subsection \<open>Preview server\<close>

text \<open>\<open>const browser = Browser.create()\<close> runs when the module is loaded and returns a new
  browser-sync instance, an object; \<open>r\<close> is the reference of that object.\<close>

definition Browser_create :: "nat \<Rightarrow> jsval" where
  "Browser_create r = JObject r []"

definition browser :: "nat \<Rightarrow> jsval" where
  "browser r = Browser_create r"

definition serve :: "nat \<Rightarrow> event list" where
  "serve r = [BrowserInit, Done None]"

definition reload :: "nat \<Rightarrow> event list" where
  "reload r = (if truthy (browser r) then [BrowserReload] else []) @ [Done None]"

section \<open>Task graph\<close>

datatype task_name =
    CleanFiles | CopyFiles | Html | WatchHTML | Xhtml | WatchXHTML
  | Css | WatchCSS | Images | WatchImages | Js | WatchJS
  | ZipEpub | Validate | Serve | Reload

datatype task = Leaf task_name | Series "task list" | Parallel "task list"

definition dev :: task where
  "dev = Series [Leaf CleanFiles, Leaf CopyFiles, Leaf Html, Leaf Images, Leaf Css,
                 Leaf Js, Leaf Serve, Parallel [Leaf WatchHTML, Leaf WatchCSS]]"

definition buildProof :: task where
  "buildProof = Series [Leaf CleanFiles, Leaf CopyFiles, Leaf Xhtml, Leaf Images,
                        Leaf Css, Leaf Js, Parallel [Leaf WatchXHTML, Leaf WatchCSS]]"

definition buildEpub :: task where
  "buildEpub = Series [Leaf CleanFiles, Leaf CopyFiles, Leaf Xhtml, Leaf Images,
                       Leaf Css, Leaf Js, Series [Leaf ZipEpub]]"

definition buildValidate :: task where
  "buildValidate = Series [buildEpub, Series [Leaf Validate]]"

text \<open>The watch tasks: \<open>gulp.watch(pattern, handler)\<close> runs the handler whenever a file
  selected by the pattern changes.\<close>

fun watch :: "path \<Rightarrow> task_name \<Rightarrow> (segpat list \<times> task) option" where
  "watch dirname WatchHTML = Some (HTMLSource dirname, Series [Leaf Html, Leaf Reload])"
| "watch dirname WatchXHTML = Some (HTMLSource dirname, Series [Leaf Xhtml])"
| "watch dirname WatchCSS = Some (CSSSource dirname, Series [Leaf Css, Leaf Reload])"
| "watch dirname WatchImages = Some (imageSource dirname, Series [Leaf Images, Leaf Reload])"
| "watch dirname WatchJS = Some (JSSource dirname, Series [Leaf Js, Leaf Reload])"
| "watch dirname _ = None"

text \<open>The leaf tasks of a composition, in the order in which they are written.\<close>

fun leaves :: "task \<Rightarrow> task_name list" where
  "leaves (Leaf n) = [n]"
| "leaves (Series ts) = concat (map leaves ts)"
| "leaves (Parallel ts) = concat (map leaves ts)"

text \<open>The pipeline stage behind a leaf task, for the leaves that process the source
  content tree.\<close>

fun stage_of :: "jsval \<Rightarrow> path \<Rightarrow> task_name \<Rightarrow> stage option" where
  "stage_of env dirname CopyFiles = Some (copyFiles env dirname)"
| "stage_of env dirname Html = Some (html env dirname)"
| "stage_of env dirname Xhtml = Some (xhtml env dirname)"
| "stage_of env dirname Css = Some (css env dirname)"
| "stage_of env dirname Images = Some (images env dirname)"
| "stage_of env dirname Js = Some (js env dirname)"
| "stage_of env dirname _ = None"

text \<open>The paths that the leaves of a task write a given source file to.\<close>

definition task_outputs :: "jsval \<Rightarrow> path \<Rightarrow> task \<Rightarrow> path \<Rightarrow> path list" where
  "task_outputs env dirname t f =
     List.map_filter
       (\<lambda>n. case stage_of env dirname n of
               None \<Rightarrow> None
             | Some st \<Rightarrow> stage_output st f)
       (leaves t)"

subsection \<open>Execution\<close>

text \<open>
  Modelled from the spec: the executor behind \<open>gulp.series\<close> and \<open>gulp.parallel\<close> is not
  part of the gulpfile. Section 4.2 of the specification gives its semantics: a series
  runs its children strictly in order and fails at the first child that fails, without
  starting the later ones; a parallel composite starts all its children, lets all of them
  finish, and fails when one of them failed (with the error of the first failed child in
  the order in which the children are written). \<open>outcome\<close> says for each leaf whether
  it fails and with which error; a run returns the leaves it started, in order, and the
  error it reports, if any.
\<close>

fun run :: "(task_name \<Rightarrow> 'e option) \<Rightarrow> task \<Rightarrow> task_name list \<times> 'e option"
and run_series :: "(task_name \<Rightarrow> 'e option) \<Rightarrow> task list \<Rightarrow> task_name list \<times> 'e option"
and run_parallel :: "(task_name \<Rightarrow> 'e option) \<Rightarrow> task list \<Rightarrow> task_name list \<times> 'e option"
where
  "run outcome (Leaf n) = ([n], outcome n)"
| "run outcome (Series ts) = run_series outcome ts"
| "run outcome (Parallel ts) = run_parallel outcome ts"
| "run_series outcome [] = ([], None)"
| "run_series outcome (t # ts) =
     (case run outcome t of
        (started, Some e) \<Rightarrow> (started, Some e)
      | (started, None) \<Rightarrow>
          (case run_series outcome ts of (started', r) \<Rightarrow> (started @ started', r)))"
| "run_parallel outcome [] = ([], None)"
| "run_parallel outcome (t # ts) =
     (case run outcome t of
        (started, r) \<Rightarrow>
          (case run_parallel outcome ts of
             (started', r') \<Rightarrow>
               (started @ started', case r of Some e \<Rightarrow> Some e | None \<Rightarrow> r')))"

text \<open>
  Modelled from the spec: the events of a run, for the order in which they happen.
  A leaf starts and finishes with its result; a composite reports its result after its
  children. The children of a series run one after the other, up to the first that
  fails. The children of a parallel composite all run, with no order between the
  events of different children: every interleaving of their events is a possible run.
  \<open>traces\<close> lists the possible runs.
\<close>

datatype 'e task_event =
    Started task_name
  | Finished task_name "'e option"
  | Reported "'e option"

fun interleavings :: "'a list \<Rightarrow> 'a list \<Rightarrow> 'a list list" where
  "interleavings [] ys = [ys]"
| "interleavings xs [] = [xs]"
| "interleavings (x # xs) (y # ys) =
     map ((#) x) (interleavings xs (y # ys)) @ map ((#) y) (interleavings (x # xs) ys)"

fun traces :: "(task_name \<Rightarrow> 'e option) \<Rightarrow> task \<Rightarrow> 'e task_event list list"
and series_traces :: "(task_name \<Rightarrow> 'e option) \<Rightarrow> task list \<Rightarrow> 'e task_event list list"
and parallel_traces :: "(task_name \<Rightarrow> 'e option) \<Rightarrow> task list \<Rightarrow> 'e task_event list list"
where
  "traces outcome (Leaf n) = [[Started n, Finished n (outcome n)]]"
| "traces outcome (Series ts) =
     map (\<lambda>es. es @ [Reported (snd (run outcome (Series ts)))]) (series_traces outcome ts)"
| "traces outcome (Parallel ts) =
     map (\<lambda>es. es @ [Reported (snd (run outcome (Parallel ts)))])
       (parallel_traces outcome ts)"
| "series_traces outcome [] = [[]]"
| "series_traces outcome (t # ts) =
     (case snd (run outcome t) of
        Some e \<Rightarrow> traces outcome t
      | None \<Rightarrow> concat (map (\<lambda>a. map (\<lambda>b. a @ b) (series_traces outcome ts))
                         (traces outcome t)))"
| "parallel_traces outcome [] = [[]]"
| "parallel_traces outcome (t # ts) =
     concat (map (\<lambda>a. concat (map (\<lambda>b. interleavings a b) (parallel_traces outcome ts)))
               (traces outcome t))"

section \<open>Evaluation of the configuration\<close>

lemma devMode_process_env: "devMode (process_env vars) = False"
  by (simp add: devMode_def process_env_def)

lemma kebabCase_config: "kebabCase (epubName config) = ''textbook''"
  by code_simp

lemma archive_name_eval: "archive_name = ''textbook.epub''"
  by (simp add: archive_name_def kebabCase_config)

lemma validate_command_eval:
  "validate_command
     = ''java -jar bin/epubcheck-4.0.2/epubcheck.jar Textbook.epub > Textbook.epub.errors 2>&1''"
  by (simp add: validate_command_def config_def)

section \<open>The mode flag\<close>

text \<open>
  C1. The claim is that the mode flag controls the conditional transforms: production
  mode applies \<open>cleanCSS\<close> and \<open>uglify\<close> and omits the sourcemap transforms, development
  mode does the opposite. The code computes the flag as \<open>process.env === 'development'\<close>,
  an object compared with a string, so the flag is false under every environment: the
  stylesheet stage always runs \<open>sass\<close>, \<open>cleanCSS\<close>, \<open>postcss\<close>, \<open>rename\<close> and never the
  sourcemap transforms, and the script stage always runs \<open>uglify\<close>, whatever
  \<open>NODE_ENV\<close> says.
\<close>

theorem mode_flag_ignored:
  "devMode (process_env vars) = False
   \<and> pipes (css (process_env vars) dirname) = [Sass, CleanCSS, Postcss, Rename ''css'']
   \<and> pipes (js (process_env vars) dirname) = [Uglify]"
  by (simp add: devMode_process_env css_def js_def gulpif_def)

theorem mode_flag_ignored_development:
  "pipes (css (process_env [(''NODE_ENV'', ''development'')]) [''project''])
     = pipes (css (process_env [(''NODE_ENV'', ''production'')]) [''project''])
   \<and> SourcemapsInit \<notin> set (pipes (css (process_env [(''NODE_ENV'', ''development'')])
                                      [''project'']))
   \<and> CleanCSS \<in> set (pipes (css (process_env [(''NODE_ENV'', ''development'')])
                                [''project'']))"
  using mode_flag_ignored [of "[(''NODE_ENV'', ''development'')]" "[''project'']"]
        mode_flag_ignored [of "[(''NODE_ENV'', ''production'')]" "[''project'']"]
  by simp

section \<open>Selection of files by the stages\<close>

lemma glob_match_Nil: "glob_match dot [] f \<longleftrightarrow> f = []"
  by (cases f) simp_all

lemma glob_match_Lit:
  "glob_match dot (Lit d # ps) f \<longleftrightarrow> (\<exists>r. f = d # r \<and> glob_match dot ps r)"
  by (cases f) auto

lemma glob_match_under:
  "glob_match dot (under dir ps) f \<longleftrightarrow> (\<exists>rel. f = dir @ rel \<and> glob_match dot ps rel)"
proof (induction dir arbitrary: f)
  case Nil
  then show ?case by (simp add: under_def)
next
  case (Cons d dir)
  have "glob_match dot (under (d # dir) ps) f
          \<longleftrightarrow> (\<exists>r. f = d # r \<and> glob_match dot (under dir ps) r)"
    using glob_match_Lit [of dot d "under dir ps" f] by (simp add: under_def)
  with Cons.IH show ?case by auto
qed

lemma glob_match_GlobStar_dot: "glob_match True [GlobStar] f"
  by (induction f) auto

lemma glob_match_dir_GlobStar:
  "glob_match True [Lit d, GlobStar] rel \<longleftrightarrow> (\<exists>r. rel = d # r)"
  by (simp add: glob_match_Lit glob_match_GlobStar_dot)

lemma glob_match_Star_only:
  "glob_match False [Star] rel \<longleftrightarrow> (\<exists>s. rel = [s] \<and> s \<noteq> [] \<and> \<not> dotfile s)"
proof (cases rel)
  case Nil
  then show ?thesis by simp
next
  case (Cons s ss)
  then show ?thesis by (cases ss) auto
qed

lemma glob_match_StarSuffix_only:
  "glob_match False [StarSuffix suf] rel
     \<longleftrightarrow> (\<exists>s. rel = [s] \<and> ends_with suf s \<and> \<not> dotfile s)"
proof (cases rel)
  case Nil
  then show ?thesis by simp
next
  case (Cons s ss)
  then show ?thesis by (cases ss) auto
qed

lemma glob_match_GlobStar_Star:
  "glob_match False [GlobStar, Star] rel
     \<longleftrightarrow> rel \<noteq> [] \<and> (\<forall>s\<in>set rel. \<not> dotfile s) \<and> last rel \<noteq> []"
proof (induction rel)
  case Nil
  then show ?case by simp
next
  case (Cons s ss)
  have "glob_match False [GlobStar, Star] (s # ss)
          \<longleftrightarrow> glob_match False [Star] (s # ss)
              \<or> (\<not> dotfile s \<and> glob_match False [GlobStar, Star] ss)"
    by simp
  with Cons.IH show ?case
    by (auto simp: glob_match_Nil)
qed

lemma glob_match_GlobStar_StarSuffix:
  "glob_match False [GlobStar, StarSuffix suf] rel
     \<longleftrightarrow> rel \<noteq> [] \<and> (\<forall>s\<in>set rel. \<not> dotfile s) \<and> ends_with suf (last rel)"
proof (induction rel)
  case Nil
  then show ?case by simp
next
  case (Cons s ss)
  have "glob_match False [GlobStar, StarSuffix suf] (s # ss)
          \<longleftrightarrow> glob_match False [StarSuffix suf] (s # ss)
              \<or> (\<not> dotfile s \<and> glob_match False [GlobStar, StarSuffix suf] ss)"
    by simp
  with Cons.IH show ?case
    by (auto simp: glob_match_Nil)
qed

lemma copyFiles_match:
  "src_match (globs (copyFiles env dirname)) f
     \<longleftrightarrow> (\<exists>d rel. f = sourceContentDirectoryPath dirname @ d # rel
              \<and> d \<notin> {''html'', ''scss'', ''images'', ''js''}
              \<and> (\<forall>s\<in>set (d # rel). \<not> dotfile s) \<and> last (d # rel) \<noteq> [])"
  (is "?L \<longleftrightarrow> ?R")
proof
  assume ?L
  then obtain rel where f: "f = sourceContentDirectoryPath dirname @ rel"
    and vis: "rel \<noteq> [] \<and> (\<forall>s\<in>set rel. \<not> dotfile s) \<and> last rel \<noteq> []"
    and neg: "\<forall>d \<in> {''html'', ''scss'', ''images'', ''js''}. \<forall>r. rel \<noteq> d # r"
    by (auto simp: copyFiles_def glob_match_under glob_match_dir_GlobStar
          glob_match_GlobStar_Star)
  from vis obtain d r where rel: "rel = d # r" by (cases rel) auto
  with neg have "d \<notin> {''html'', ''scss'', ''images'', ''js''}" by auto
  with f vis rel show ?R by auto
next
  assume ?R
  then show ?L
    by (auto simp: copyFiles_def glob_match_under glob_match_dir_GlobStar
          glob_match_GlobStar_Star)
qed

lemma HTMLSource_match:
  "glob_match False (HTMLSource dirname) f
     \<longleftrightarrow> (\<exists>rel. f = sourceContentDirectoryPath dirname @ ''html'' # rel
              \<and> rel \<noteq> [] \<and> (\<forall>s\<in>set rel. \<not> dotfile s) \<and> ends_with ''.html'' (last rel))"
  by (auto simp: HTMLSource_def glob_match_under glob_match_Lit glob_match_GlobStar_StarSuffix)

lemma html_match:
  "src_match (globs (html env dirname)) f \<longleftrightarrow> glob_match False (HTMLSource dirname) f"
  by (simp add: html_def)

lemma xhtml_match:
  "src_match (globs (xhtml env dirname)) f \<longleftrightarrow> glob_match False (HTMLSource dirname) f"
  by (simp add: xhtml_def)

lemma css_match:
  "src_match (globs (css env dirname)) f
     \<longleftrightarrow> f = sourceContentDirectoryPath dirname @ [''scss'', ''styles.scss'']"
  by (auto simp: css_def glob_match_under glob_match_Lit glob_match_Nil)

lemma images_match:
  "src_match (globs (images env dirname)) f
     \<longleftrightarrow> (\<exists>s. f = sourceContentDirectoryPath dirname @ [''images'', s]
            \<and> s \<noteq> [] \<and> \<not> dotfile s)"
  by (auto simp: images_def imageSource_def glob_match_under glob_match_Lit
        glob_match_Star_only)

lemma js_match:
  "src_match (globs (js env dirname)) f
     \<longleftrightarrow> (\<exists>s. f = sourceContentDirectoryPath dirname @ [''js'', s]
            \<and> s \<noteq> [] \<and> \<not> dotfile s)"
  by (auto simp: js_def JSSource_def glob_match_under glob_match_Lit
        glob_match_Star_only)

lemma stage_exclusion:
  "\<not> (src_match (globs (copyFiles env dirname)) f \<and> src_match (globs (html env dirname)) f)"
  "\<not> (src_match (globs (copyFiles env dirname)) f \<and> src_match (globs (images env dirname)) f)"
  "\<not> (src_match (globs (copyFiles env dirname)) f \<and> src_match (globs (css env dirname)) f)"
  "\<not> (src_match (globs (copyFiles env dirname)) f \<and> src_match (globs (js env dirname)) f)"
  "\<not> (src_match (globs (html env dirname)) f \<and> src_match (globs (images env dirname)) f)"
  "\<not> (src_match (globs (html env dirname)) f \<and> src_match (globs (css env dirname)) f)"
  "\<not> (src_match (globs (html env dirname)) f \<and> src_match (globs (js env dirname)) f)"
  "\<not> (src_match (globs (images env dirname)) f \<and> src_match (globs (css env dirname)) f)"
  "\<not> (src_match (globs (images env dirname)) f \<and> src_match (globs (js env dirname)) f)"
  "\<not> (src_match (globs (css env dirname)) f \<and> src_match (globs (js env dirname)) f)"
  by (auto simp: copyFiles_match html_match HTMLSource_match css_match images_match js_match)

lemma only_copyFiles:
  "src_match (globs (copyFiles env dirname)) f
   \<Longrightarrow> matching_stages env dirname f = [copyFiles env dirname]"
  using stage_exclusion [of env dirname f]
  by (auto simp: matching_stages_def content_stages_def)

lemma only_html:
  "src_match (globs (html env dirname)) f
   \<Longrightarrow> matching_stages env dirname f = [html env dirname]"
  using stage_exclusion [of env dirname f]
  by (auto simp: matching_stages_def content_stages_def)

lemma only_images:
  "src_match (globs (images env dirname)) f
   \<Longrightarrow> matching_stages env dirname f = [images env dirname]"
  using stage_exclusion [of env dirname f]
  by (auto simp: matching_stages_def content_stages_def)

lemma only_css:
  "src_match (globs (css env dirname)) f
   \<Longrightarrow> matching_stages env dirname f = [css env dirname]"
  using stage_exclusion [of env dirname f]
  by (auto simp: matching_stages_def content_stages_def)

lemma only_js:
  "src_match (globs (js env dirname)) f
   \<Longrightarrow> matching_stages env dirname f = [js env dirname]"
  using stage_exclusion [of env dirname f]
  by (auto simp: matching_stages_def content_stages_def)

text \<open>
  C2. The claim is that the patterns of the content stages (\<open>copyFiles\<close> with its four
  exclusions, the markup stage, \<open>css\<close>, \<open>images\<close>, \<open>js\<close>) select every file of the
  source content tree exactly once. What holds is this. No file is selected by two
  stages. Every file outside \<open>html\<close>, \<open>scss\<close>, \<open>images\<close> and \<open>js\<close> whose path has no
  name starting with a dot is selected by \<open>copyFiles\<close> alone. Every file below \<open>html\<close>
  whose name ends with \<open>.html\<close> and whose path has no name starting with a dot is
  selected by the markup stage alone (\<open>html\<close> and \<open>xhtml\<close> select the same files);
  \<open>scss/styles.scss\<close> is selected by \<open>css\<close> alone; every file directly in \<open>images\<close>
  or \<open>js\<close> whose name does not start with a dot is selected by \<open>images\<close> or \<open>js\<close>
  alone. What fails is the coverage of \<open>scss\<close>: \<open>copyFiles\<close> leaves out the whole
  directory and \<open>css\<close> reads the single file \<open>scss/styles.scss\<close>, so every other file
  below \<open>scss\<close>, such as the partial \<open>scss/_variables.scss\<close>, is selected by no stage.
\<close>

theorem stages_never_overlap:
  "length (matching_stages env dirname f) \<le> 1
   \<and> (\<forall>d rel. f = sourceContentDirectoryPath dirname @ d # rel
                \<and> d \<notin> {''html'', ''scss'', ''images'', ''js''}
                \<and> (\<forall>s\<in>set (d # rel). s \<noteq> [] \<and> \<not> dotfile s)
         \<longrightarrow> matching_stages env dirname f = [copyFiles env dirname])
   \<and> (\<forall>rel. f = sourceContentDirectoryPath dirname @ ''html'' # rel
              \<and> rel \<noteq> [] \<and> (\<forall>s\<in>set rel. \<not> dotfile s) \<and> ends_with ''.html'' (last rel)
         \<longrightarrow> matching_stages env dirname f = [html env dirname]
             \<and> src_match (globs (xhtml env dirname)) f)
   \<and> (f = sourceContentDirectoryPath dirname @ [''scss'', ''styles.scss'']
         \<longrightarrow> matching_stages env dirname f = [css env dirname])
   \<and> (\<forall>s. f = sourceContentDirectoryPath dirname @ [''images'', s]
            \<and> s \<noteq> [] \<and> \<not> dotfile s
         \<longrightarrow> matching_stages env dirname f = [images env dirname])
   \<and> (\<forall>s. f = sourceContentDirectoryPath dirname @ [''js'', s]
            \<and> s \<noteq> [] \<and> \<not> dotfile s
         \<longrightarrow> matching_stages env dirname f = [js env dirname])
   \<and> (\<forall>rel. f = sourceContentDirectoryPath dirname @ ''scss'' # rel
              \<and> rel \<noteq> [''styles.scss'']
         \<longrightarrow> matching_stages env dirname f = [])"
proof -
  have once: "length (matching_stages env dirname f) \<le> 1"
    using stage_exclusion [of env dirname f]
    by (auto simp: matching_stages_def content_stages_def)
  have copy: "matching_stages env dirname f = [copyFiles env dirname]"
    if "f = sourceContentDirectoryPath dirname @ d # rel"
      and "d \<notin> {''html'', ''scss'', ''images'', ''js''}"
      and "\<forall>s\<in>set (d # rel). s \<noteq> [] \<and> \<not> dotfile s" for d rel
  proof -
    have "last (d # rel) \<in> set (d # rel)" by (rule last_in_set) simp
    with that(3) have "last (d # rel) \<noteq> []" by blast
    with that have "src_match (globs (copyFiles env dirname)) f"
      unfolding copyFiles_match by blast
    then show ?thesis by (rule only_copyFiles)
  qed
  have markup: "matching_stages env dirname f = [html env dirname]
                \<and> src_match (globs (xhtml env dirname)) f"
    if "f = sourceContentDirectoryPath dirname @ ''html'' # rel"
      and "rel \<noteq> []" and "\<forall>s\<in>set rel. \<not> dotfile s" and "ends_with ''.html'' (last rel)"
    for rel
  proof -
    from that have "glob_match False (HTMLSource dirname) f"
      unfolding HTMLSource_match by blast
    then show ?thesis by (simp add: only_html html_match xhtml_match)
  qed
  have style: "matching_stages env dirname f = [css env dirname]"
    if "f = sourceContentDirectoryPath dirname @ [''scss'', ''styles.scss'']"
    using that by (intro only_css) (simp add: css_match)
  have image: "matching_stages env dirname f = [images env dirname]"
    if "f = sourceContentDirectoryPath dirname @ [''images'', s]" "s \<noteq> []" "\<not> dotfile s"
    for s
    using that by (intro only_images) (simp add: images_match)
  have script: "matching_stages env dirname f = [js env dirname]"
    if "f = sourceContentDirectoryPath dirname @ [''js'', s]" "s \<noteq> []" "\<not> dotfile s"
    for s
    using that by (intro only_js) (simp add: js_match)
  have partial: "matching_stages env dirname f = []"
    if "f = sourceContentDirectoryPath dirname @ ''scss'' # rel"
      and "rel \<noteq> [''styles.scss'']" for rel
  proof -
    from that have "\<not> src_match (globs (copyFiles env dirname)) f"
      "\<not> src_match (globs (html env dirname)) f"
      "\<not> src_match (globs (images env dirname)) f"
      "\<not> src_match (globs (css env dirname)) f"
      "\<not> src_match (globs (js env dirname)) f"
      by (auto simp: copyFiles_match html_match HTMLSource_match css_match images_match
            js_match)
    then show ?thesis
      by (simp add: matching_stages_def content_stages_def)
  qed
  show ?thesis
    apply (intro conjI allI impI)
    subgoal by (rule once)
    subgoal by (elim conjE) (rule copy)
    subgoal by (elim conjE) (rule markup [THEN conjunct1])
    subgoal by (elim conjE) (rule markup [THEN conjunct2])
    subgoal by (rule style)
    subgoal by (elim conjE) (rule image)
    subgoal by (elim conjE) (rule script)
    subgoal by (elim conjE) (rule partial)
    done
qed

theorem stages_never_overlap_witness:
  "matching_stages (process_env []) [''project'']
        [''project'', ''src'', ''EPUB'', ''META-INF'', ''container.xml'']
       = [copyFiles (process_env []) [''project'']]
   \<and> matching_stages (process_env []) [''project'']
        [''project'', ''src'', ''EPUB'', ''html'', ''part1'', ''ch1.html'']
       = [html (process_env []) [''project'']]
   \<and> matching_stages (process_env []) [''project'']
        [''project'', ''src'', ''EPUB'', ''scss'', ''styles.scss'']
       = [css (process_env []) [''project'']]
   \<and> matching_stages (process_env []) [''project'']
        [''project'', ''src'', ''EPUB'', ''images'', ''cover.png'']
       = [images (process_env []) [''project'']]
   \<and> matching_stages (process_env []) [''project'']
        [''project'', ''src'', ''EPUB'', ''js'', ''app.js'']
       = [js (process_env []) [''project'']]
   \<and> matching_stages (process_env []) [''project'']
        [''project'', ''src'', ''EPUB'', ''scss'', ''_mixins.scss''] = []"
proof -
  let ?env = "process_env []"
  let ?dir = "[''project'']"
  have scd: "sourceContentDirectoryPath ?dir = [''project'', ''src'', ''EPUB'']"
    by (simp add: sourceContentDirectoryPath_def sourceDirectoryPath_def config_def)
  have "\<forall>d rel. [''project'', ''src'', ''EPUB'', ''META-INF'', ''container.xml'']
                  = sourceContentDirectoryPath ?dir @ d # rel
                \<and> d \<notin> {''html'', ''scss'', ''images'', ''js''}
                \<and> (\<forall>s\<in>set (d # rel). s \<noteq> [] \<and> \<not> dotfile s)
         \<longrightarrow> matching_stages ?env ?dir
               [''project'', ''src'', ''EPUB'', ''META-INF'', ''container.xml'']
             = [copyFiles ?env ?dir]"
    using stages_never_overlap
            [of ?env ?dir "[''project'', ''src'', ''EPUB'', ''META-INF'', ''container.xml'']"]
    by (elim conjE)
  then have c1: "matching_stages ?env ?dir
               [''project'', ''src'', ''EPUB'', ''META-INF'', ''container.xml'']
             = [copyFiles ?env ?dir]"
    by (elim allE [of _ "''META-INF''"] allE [of _ "[''container.xml'']"])
       (simp add: scd dotfile_def)
  have "\<forall>rel. [''project'', ''src'', ''EPUB'', ''html'', ''part1'', ''ch1.html'']
                = sourceContentDirectoryPath ?dir @ ''html'' # rel
              \<and> rel \<noteq> [] \<and> (\<forall>s\<in>set rel. \<not> dotfile s) \<and> ends_with ''.html'' (last rel)
         \<longrightarrow> matching_stages ?env ?dir
               [''project'', ''src'', ''EPUB'', ''html'', ''part1'', ''ch1.html'']
             = [html ?env ?dir]
             \<and> src_match (globs (xhtml ?env ?dir))
                 [''project'', ''src'', ''EPUB'', ''html'', ''part1'', ''ch1.html'']"
    using stages_never_overlap
            [of ?env ?dir "[''project'', ''src'', ''EPUB'', ''html'', ''part1'', ''ch1.html'']"]
    by (elim conjE)
  then have c2: "matching_stages ?env ?dir
               [''project'', ''src'', ''EPUB'', ''html'', ''part1'', ''ch1.html'']
             = [html ?env ?dir]"
    by (elim allE [of _ "[''part1'', ''ch1.html'']"])
       (simp add: scd dotfile_def ends_with_def)
  have "[''project'', ''src'', ''EPUB'', ''scss'', ''styles.scss'']
          = sourceContentDirectoryPath ?dir @ [''scss'', ''styles.scss'']
        \<longrightarrow> matching_stages ?env ?dir [''project'', ''src'', ''EPUB'', ''scss'', ''styles.scss'']
             = [css ?env ?dir]"
    using stages_never_overlap
            [of ?env ?dir "[''project'', ''src'', ''EPUB'', ''scss'', ''styles.scss'']"]
    by (elim conjE)
  then have c3: "matching_stages ?env ?dir
               [''project'', ''src'', ''EPUB'', ''scss'', ''styles.scss''] = [css ?env ?dir]"
    by (simp add: scd)
  have "\<forall>s. [''project'', ''src'', ''EPUB'', ''images'', ''cover.png'']
              = sourceContentDirectoryPath ?dir @ [''images'', s]
            \<and> s \<noteq> [] \<and> \<not> dotfile s
         \<longrightarrow> matching_stages ?env ?dir [''project'', ''src'', ''EPUB'', ''images'', ''cover.png'']
             = [images ?env ?dir]"
    using stages_never_overlap
            [of ?env ?dir "[''project'', ''src'', ''EPUB'', ''images'', ''cover.png'']"]
    by (elim conjE)
  then have c4: "matching_stages ?env ?dir
               [''project'', ''src'', ''EPUB'', ''images'', ''cover.png''] = [images ?env ?dir]"
    by (elim allE [of _ "''cover.png''"]) (simp add: scd dotfile_def)
  have "\<forall>s. [''project'', ''src'', ''EPUB'', ''js'', ''app.js'']
              = sourceContentDirectoryPath ?dir @ [''js'', s]
            \<and> s \<noteq> [] \<and> \<not> dotfile s
         \<longrightarrow> matching_stages ?env ?dir [''project'', ''src'', ''EPUB'', ''js'', ''app.js'']
             = [js ?env ?dir]"
    using stages_never_overlap
            [of ?env ?dir "[''project'', ''src'', ''EPUB'', ''js'', ''app.js'']"]
    by (elim conjE)
  then have c5: "matching_stages ?env ?dir
               [''project'', ''src'', ''EPUB'', ''js'', ''app.js''] = [js ?env ?dir]"
    by (elim allE [of _ "''app.js''"]) (simp add: scd dotfile_def)
  have "\<forall>rel. [''project'', ''src'', ''EPUB'', ''scss'', ''_mixins.scss'']
                = sourceContentDirectoryPath ?dir @ ''scss'' # rel
              \<and> rel \<noteq> [''styles.scss'']
         \<longrightarrow> matching_stages ?env ?dir [''project'', ''src'', ''EPUB'', ''scss'', ''_mixins.scss'']
             = []"
    using stages_never_overlap
            [of ?env ?dir "[''project'', ''src'', ''EPUB'', ''scss'', ''_mixins.scss'']"]
    by (elim conjE)
  then have c6: "matching_stages ?env ?dir
               [''project'', ''src'', ''EPUB'', ''scss'', ''_mixins.scss''] = []"
    by (elim allE [of _ "[''_mixins.scss'']"]) (simp add: scd)
  from c1 c2 c3 c4 c5 c6 show ?thesis by (intro conjI)
qed

theorem scss_partial_unmatched:
  "length (matching_stages (process_env []) [''project'']
             [''project'', ''src'', ''EPUB'', ''scss'', ''_variables.scss'']) = 0"
  by code_simp

section \<open>The archive\<close>

lemma relative_prefix: "relative dir (dir @ rel) = rel"
  by (induction dir) simp_all

lemma zipEpub_match:
  "src_match [Pos (under (buildDirectoryPath dirname) [GlobStar, Star])] f
     \<longleftrightarrow> (\<exists>rel. f = buildDirectoryPath dirname @ rel
            \<and> rel \<noteq> [] \<and> (\<forall>s\<in>set rel. \<not> dotfile s) \<and> last rel \<noteq> [])"
  by (simp add: glob_match_under glob_match_GlobStar_Star)

lemma zipEpub_selected:
  assumes "\<forall>(f, n)\<in>set (fs :: tree). \<exists>rel. f = buildDirectoryPath dirname @ rel
                                   \<and> rel \<noteq> [] \<and> [] \<notin> set rel"
  shows "map (\<lambda>(f, n). (relative (buildDirectoryPath dirname) f, n))
           (filter (\<lambda>(f, n). src_match [Pos (under (buildDirectoryPath dirname)
                                                  [GlobStar, Star])] f) fs)
         = filter (\<lambda>(rel, n). \<forall>s\<in>set rel. \<not> dotfile s)
             (map (\<lambda>(f, n). (relative (buildDirectoryPath dirname) f, n)) fs)"
proof -
  let ?b = "buildDirectoryPath dirname"
  let ?sel = "\<lambda>p. glob_match False (under ?b [GlobStar, Star]) (fst p)"
  let ?vis = "\<lambda>p :: path \<times> node. \<forall>s\<in>set (relative ?b (fst p)). \<not> dotfile s"
  have sel: "?sel x = ?vis x" if "x \<in> set fs" for x
  proof -
    obtain f n where x: "x = (f, n)" by (cases x)
    with that assms obtain rel where rel: "f = ?b @ rel" "rel \<noteq> []" "[] \<notin> set rel"
      by blast
    then have "last rel \<noteq> []" using last_in_set [of rel] by metis
    with rel x show ?thesis
      by (auto simp: glob_match_under glob_match_GlobStar_Star relative_prefix)
  qed
  then have "filter ?sel fs = filter ?vis fs"
    by (intro filter_cong) auto
  then show ?thesis
    by (simp add: filter_map comp_def case_prod_unfold)
qed

text \<open>
  C6. The claim is that for every build tree the archive written by \<open>zipEpub\<close> lists
  exactly the relative paths of the files of the tree. The tree is given by its nodes,
  files and directories, each below the build root and with non-empty names. The
  nodes that \<open>zipEpub\<close> selects are those whose path below the build root has no name
  starting with a dot. When there is such a node, \<open>zipEpub\<close> writes one archive,
  \<open>textbook.epub\<close>, into the working directory, with one entry for each selected
  node, directory or file, under its unchanged relative path and in the order of the
  tree; when there is none, it writes no archive. For a tree that is not empty and has
  no name starting with a dot, the archive has an entry for every node, so its file
  entries are exactly the files of the tree with their relative paths and contents. The
  claim fails on the directory entries, which the archive also lists, on the nodes
  whose path has a name starting with a dot, which the archive leaves out, and on the
  tree with nothing to select.
\<close>

theorem zipEpub_listing:
  assumes tree: "\<forall>(f, n)\<in>set fs. \<exists>rel. f = buildDirectoryPath dirname @ rel
                                     \<and> rel \<noteq> [] \<and> [] \<notin> set rel"
  shows "zipEpub dirname cwd fs
           = (let visible = filter (\<lambda>(rel, n). \<forall>s\<in>set rel. \<not> dotfile s)
                              (map (\<lambda>(f, n). (relative (buildDirectoryPath dirname) f, n)) fs)
              in if visible = [] then None
                 else Some \<lparr> archive_path = cwd @ [''textbook.epub''], entries = visible \<rparr>)
    \<and> (fs \<noteq> []
        \<and> (\<forall>(f, n)\<in>set fs. \<forall>s\<in>set (relative (buildDirectoryPath dirname) f). \<not> dotfile s)
        \<longrightarrow> (\<exists>a. zipEpub dirname cwd fs = Some a
                 \<and> archive_path a = cwd @ [''textbook.epub'']
                 \<and> entries a = map (\<lambda>(f, n). (relative (buildDirectoryPath dirname) f, n)) fs
                 \<and> files_of (entries a)
                     = files_of (map (\<lambda>(f, n). (relative (buildDirectoryPath dirname) f, n))
                                   fs)))"
proof -
  let ?rel = "\<lambda>(f :: path, n :: node). (relative (buildDirectoryPath dirname) f, n)"
  let ?visible = "filter (\<lambda>(rel, n). \<forall>s\<in>set rel. \<not> dotfile s) (map ?rel fs)"
  have first: "zipEpub dirname cwd fs
           = (let visible = ?visible
              in if visible = [] then None
                 else Some \<lparr> archive_path = cwd @ [''textbook.epub''], entries = visible \<rparr>)"
    unfolding zipEpub_def Let_def zipEpub_selected [OF tree, symmetric]
    by (simp add: archive_name_eval)
  have second: "\<exists>a. zipEpub dirname cwd fs = Some a
                 \<and> archive_path a = cwd @ [''textbook.epub'']
                 \<and> entries a = map ?rel fs
                 \<and> files_of (entries a) = files_of (map ?rel fs)"
    if "fs \<noteq> []"
      and "\<forall>(f, n)\<in>set fs. \<forall>s\<in>set (relative (buildDirectoryPath dirname) f). \<not> dotfile s"
  proof -
    from that(2) have "?visible = map ?rel fs"
      by (intro filter_True) auto
    with that(1) first show ?thesis by (simp add: Let_def)
  qed
  from first second show ?thesis by blast
qed

theorem zipEpub_listing_witness:
  "zipEpub [''project''] [''project'']
      [([''project'', ''build'', ''textbook''], Directory),
       ([''project'', ''build'', ''textbook'', ''EPUB''], Directory),
       ([''project'', ''build'', ''textbook'', ''EPUB'', ''mimetype''],
        File ''application/epub+zip'')]
     = Some \<lparr> archive_path = [''project'', ''textbook.epub''],
              entries = [([''textbook''], Directory),
                         ([''textbook'', ''EPUB''], Directory),
                         ([''textbook'', ''EPUB'', ''mimetype''],
                          File ''application/epub+zip'')] \<rparr>"
proof -
  let ?fs = "[([''project'', ''build'', ''textbook''], Directory),
       ([''project'', ''build'', ''textbook'', ''EPUB''], Directory),
       ([''project'', ''build'', ''textbook'', ''EPUB'', ''mimetype''],
        File ''application/epub+zip'')]"
  have b: "buildDirectoryPath [''project''] = [''project'', ''build'']"
    by (simp add: buildDirectoryPath_def config_def)
  have tree: "\<forall>(f, n)\<in>set ?fs. \<exists>rel. f = buildDirectoryPath [''project''] @ rel
                                     \<and> rel \<noteq> [] \<and> [] \<notin> set rel"
    by (simp add: b)
  have vis: "?fs \<noteq> [] \<and> (\<forall>(f, n)\<in>set ?fs.
               \<forall>s\<in>set (relative (buildDirectoryPath [''project'']) f). \<not> dotfile s)"
    by (simp add: b dotfile_def)
  from zipEpub_listing [OF tree, of "[''project'']"] vis
  obtain a where "zipEpub [''project''] [''project''] ?fs = Some a"
    and "archive_path a = [''project''] @ [''textbook.epub'']"
    and "entries a = map (\<lambda>(f, n). (relative (buildDirectoryPath [''project'']) f, n)) ?fs"
    by blast
  then show ?thesis by (cases a) (simp add: b)
qed

theorem zipEpub_drops_dotfile:
  "map_option listing
     (zipEpub [''project''] [''project'']
        [([''project'', ''build'', ''textbook''], Directory),
         ([''project'', ''build'', ''textbook'', ''EPUB''], Directory),
         ([''project'', ''build'', ''textbook'', ''EPUB'', ''.htaccess''], File ''deny'')])
     = Some [[''textbook''], [''textbook'', ''EPUB'']]"
  by code_simp

section \<open>Validation\<close>

text \<open>
  C3. The claim is that \<open>validate\<close> runs the checker on the archive that the packaging
  stage produced, the file named by the kebab-cased title, and writes the log next to it
  under the same name. The name that \<open>zipEpub\<close> gives to \<open>zip\<close> is \<open>textbook.epub\<close>,
  the kebab-cased title, and that is the name of every archive it writes; but the
  command line of \<open>validate\<close> is built from the raw title: it names \<open>Textbook.epub\<close>
  and \<open>Textbook.epub.errors\<close>. The title of the configuration is in the part of
  \<open>kebabCase\<close> that is modelled.
\<close>

theorem validate_checks_other_name:
  "validate_command
     = ''java -jar bin/epubcheck-4.0.2/epubcheck.jar Textbook.epub > Textbook.epub.errors 2>&1''
   \<and> archive_name = ''textbook.epub''
   \<and> (\<forall>a. zipEpub dirname cwd fs = Some a \<longrightarrow> archive_path a = cwd @ [''textbook.epub''])
   \<and> \<not> hasUnicodeWord (epubName config)"
proof -
  have "\<not> hasUnicodeWord (epubName config)"
    by code_simp
  moreover have "\<forall>a. zipEpub dirname cwd fs = Some a
                   \<longrightarrow> archive_path a = cwd @ [''textbook.epub'']"
    by (auto simp: zipEpub_def Let_def archive_name_eval split: if_splits)
  ultimately show ?thesis
    by (simp add: validate_command_eval archive_name_eval)
qed

theorem validate_checks_other_name_witness:
  "map_option archive_path
     (zipEpub [''project''] [''project'']
        [([''project'', ''build'', ''textbook''], Directory)])
     = Some [''project'', ''textbook.epub'']
   \<and> validate_command
     = ''java -jar bin/epubcheck-4.0.2/epubcheck.jar Textbook.epub > Textbook.epub.errors 2>&1''"
proof -
  let ?fs = "[([''project'', ''build'', ''textbook''], Directory)]"
  have "zipEpub [''project''] [''project''] ?fs \<noteq> None"
    by code_simp
  then obtain a where a: "zipEpub [''project''] [''project''] ?fs = Some a"
    by blast
  with validate_checks_other_name [of "[''project'']" "[''project'']" ?fs]
  have "archive_path a = [''project''] @ [''textbook.epub'']" by blast
  with a validate_checks_other_name [of "[''project'']" "[''project'']" ?fs]
  show ?thesis by simp
qed

text \<open>
  C8. Whatever the exit status of the checker, the completion signal of \<open>validate\<close> is
  success; it is success whenever \<open>exec\<close> returns. When the status is not zero the
  callback writes the captured standard error and then the captured standard output to
  the console; the command line sends the checker's own output to the \<open>.errors\<close> file.
\<close>

theorem validate_reports_success:
  "completion (validate (Exited code out err)) = Some None
   \<and> (\<not> exec_throws outcome \<longrightarrow> completion (validate outcome) = Some None)
   \<and> (\<forall>code out err. code \<noteq> 0 \<longrightarrow>
         validate (Exited code out err)
           = [Exec validate_command, Done None, ChildFinished,
              ConsoleLog err, ConsoleLog out])
   \<and> ends_with ''> Textbook.epub.errors 2>&1'' validate_command"
  by (cases outcome)
     (simp_all add: validate_body_def validate_command_eval ends_with_def)

theorem validate_reports_success_witness:
  "completion (validate (Exited 1 ''out'' ''err'')) = Some None
   \<and> validate (Exited 1 ''out'' ''err'')
       = [Exec validate_command, Done None, ChildFinished,
          ConsoleLog ''err'', ConsoleLog ''out'']"
  using validate_reports_success [of 1 "''out''" "''err''" "Exited 1 ''out'' ''err''"]
  by (simp add: validate_body_def)

text \<open>
  C9. The claim is that \<open>validate\<close> calls \<open>done()\<close> right after it has started the
  checker and before the checker finishes, so that even a failure to spawn the checker
  never fails the task and is only logged by the callback. The first part holds: when
  the checker has been started, the success signal is the second event, before the end
  of the child and before anything the callback logs. When the checker cannot be
  spawned and the error is one that is reported through the callback, the task has
  reported success before the error arrives, and the callback writes the captured
  standard error and standard output, both empty, to the console; the error itself is
  not written. With a spawn error that makes \<open>exec\<close> throw, \<open>done\<close> is never called
  and the task fails.
\<close>

theorem validate_done_before_child:
  "validate (Exited code out err)
     = Exec validate_command # Done None # ChildFinished
         # (if code = 0 then [ConsoleLog out] else [ConsoleLog err, ConsoleLog out])
   \<and> (\<not> spawn_throws c \<longrightarrow>
         validate (SpawnFailed c)
           = [Exec validate_command, Done None, SpawnError c, ConsoleLog [], ConsoleLog []]
         \<and> completion (validate (SpawnFailed c)) = Some None)"
  by (simp add: validate_body_def)

theorem validate_done_before_child_witness:
  "validate (SpawnFailed ''ENOENT'')
     = [Exec validate_command, Done None, SpawnError ''ENOENT'',
        ConsoleLog [], ConsoleLog []]
   \<and> completion (validate (SpawnFailed ''ENOENT'')) = Some None"
proof -
  have "\<not> spawn_throws ''ENOENT''"
    by (simp add: spawn_throws_def)
  with validate_done_before_child [of 0 "[]" "[]" "''ENOENT''"]
  show ?thesis by blast
qed

theorem validate_spawn_throw_fails:
  "completion (validate (SpawnFailed ''E2BIG'')) = Some (Some ''E2BIG'')
   \<and> ConsoleLog ''ENOENT'' \<notin> set (validate (SpawnFailed ''ENOENT''))"
  by (simp add: spawn_throws_def validate_body_def)

section \<open>Reload\<close>

text \<open>
  C10. The guard \<open>if (browser)\<close> of \<open>reload\<close> always holds, because \<open>browser\<close> is the
  object created when the module is loaded: \<open>reload\<close> always emits the reload signal
  and then signals completion. That includes \<open>buildProof\<close>, which never runs \<open>serve\<close>
  and whose \<open>watchCSS\<close> task runs \<open>css\<close> and then \<open>reload\<close> on every change.
\<close>

theorem reload_always_signals:
  "truthy (browser r)
   \<and> reload r = [BrowserReload, Done None]
   \<and> Serve \<notin> set (leaves buildProof)
   \<and> WatchCSS \<in> set (leaves buildProof)
   \<and> watch dirname WatchCSS = Some (CSSSource dirname, Series [Leaf Css, Leaf Reload])"
  by (simp add: reload_def browser_def Browser_create_def buildProof_def)

theorem reload_always_signals_witness:
  "reload 0 = [BrowserReload, Done None]
   \<and> Serve \<notin> set (leaves buildProof)
   \<and> map_option snd (watch [''project''] WatchCSS) = Some (Series [Leaf Css, Leaf Reload])"
  using reload_always_signals [of 0 "[''project'']"] by simp

section \<open>Markup\<close>

text \<open>
  C7. The claim is that the packaged-build tasks \<open>buildProof\<close> and \<open>buildEpub\<close> write
  every markup source file with the extension \<open>.xhtml\<close> and that \<open>dev\<close> writes it with
  its extension \<open>.html\<close>, both below the \<open>xhtml\<close> directory. \<open>dev\<close> does, and the
  packaged builds do for a file such as \<open>html/part1/ch1.html\<close>. But the extension is
  replaced at its first occurrence in the whole path of the file: the packaged builds
  write \<open>html/vol.html/ch2.html\<close> to \<open>xhtml/vol.xhtml/ch2.html\<close> and
  \<open>html/a.html.html\<close> to \<open>xhtml/a.xhtml.html\<close>, both still with the extension
  \<open>.html\<close>.
\<close>

theorem xhtml_replaces_first_occurrence:
  "src_match [Pos (HTMLSource [''project''])]
     [''project'', ''src'', ''EPUB'', ''html'', ''vol.html'', ''ch2.html'']
   \<and> task_outputs (process_env []) [''project''] buildEpub
       [''project'', ''src'', ''EPUB'', ''html'', ''vol.html'', ''ch2.html'']
     = [[''project'', ''build'', ''textbook'', ''EPUB'', ''xhtml'', ''vol.xhtml'', ''ch2.html'']]
   \<and> task_outputs (process_env []) [''project''] buildProof
       [''project'', ''src'', ''EPUB'', ''html'', ''vol.html'', ''ch2.html'']
     = [[''project'', ''build'', ''textbook'', ''EPUB'', ''xhtml'', ''vol.xhtml'', ''ch2.html'']]
   \<and> src_match [Pos (HTMLSource [''project''])]
       [''project'', ''src'', ''EPUB'', ''html'', ''a.html.html'']
   \<and> task_outputs (process_env []) [''project''] buildEpub
       [''project'', ''src'', ''EPUB'', ''html'', ''a.html.html'']
     = [[''project'', ''build'', ''textbook'', ''EPUB'', ''xhtml'', ''a.xhtml.html'']]
   \<and> task_outputs (process_env []) [''project''] buildEpub
       [''project'', ''src'', ''EPUB'', ''html'', ''part1'', ''ch1.html'']
     = [[''project'', ''build'', ''textbook'', ''EPUB'', ''xhtml'', ''part1'', ''ch1.xhtml'']]
   \<and> task_outputs (process_env []) [''project''] dev
       [''project'', ''src'', ''EPUB'', ''html'', ''vol.html'', ''ch2.html'']
     = [[''project'', ''build'', ''textbook'', ''EPUB'', ''xhtml'', ''vol.html'', ''ch2.html'']]"
  by code_simp

section \<open>Series composition\<close>

lemma run_series_append:
  "\<forall>t\<in>set pre. snd (run outcome t) = None \<Longrightarrow>
   run_series outcome (pre @ rest)
     = (concat (map (\<lambda>t. fst (run outcome t)) pre) @ fst (run_series outcome rest),
        snd (run_series outcome rest))"
proof (induction pre)
  case Nil
  then show ?case by simp
next
  case (Cons t pre)
  obtain st where "run outcome t = (st, None)"
    using Cons.prems by (cases "run outcome t") auto
  with Cons show ?case by (simp split: prod.splits)
qed

lemma run_series_fails:
  "snd (run outcome b) = Some e \<Longrightarrow>
   run_series outcome (b # post) = (fst (run outcome b), Some e)"
  by (cases "run outcome b") auto

text \<open>
  C4. In a series whose children before \<open>b\<close> all succeed and whose child \<open>b\<close> fails
  with the error \<open>e\<close>, the leaves started are those of the children before \<open>b\<close> and of
  \<open>b\<close> itself, so no child after \<open>b\<close> is started, and the series reports \<open>e\<close>.
  \<open>series(A, B, C)\<close> is the case of one child before and one child after.
\<close>

theorem series_fail_fast:
  assumes "\<forall>t\<in>set pre. snd (run outcome t) = None"
    and "snd (run outcome b) = Some e"
  shows "run outcome (Series (pre @ b # post))
           = (concat (map (\<lambda>t. fst (run outcome t)) pre) @ fst (run outcome b), Some e)"
  using run_series_append [OF assms(1), of "b # post"] run_series_fails [OF assms(2), of post]
  by simp

theorem series_fail_fast_witness:
  "run (\<lambda>n. if n = Xhtml then Some ''TransformError'' else None) buildEpub
     = ([CleanFiles, CopyFiles, Xhtml], Some ''TransformError'')"
proof -
  let ?o = "\<lambda>n. if n = Xhtml then Some ''TransformError'' else None"
  have "\<forall>t\<in>set [Leaf CleanFiles, Leaf CopyFiles]. snd (run ?o t) = None" by simp
  moreover have "snd (run ?o (Leaf Xhtml)) = Some ''TransformError''" by simp
  ultimately have "run ?o (Series ([Leaf CleanFiles, Leaf CopyFiles] @ Leaf Xhtml
                     # [Leaf Images, Leaf Css, Leaf Js, Series [Leaf ZipEpub]]))
     = (concat (map (\<lambda>t. fst (run ?o t)) [Leaf CleanFiles, Leaf CopyFiles])
          @ fst (run ?o (Leaf Xhtml)),
        Some ''TransformError'')"
    by (rule series_fail_fast)
  then show ?thesis by (simp add: buildEpub_def)
qed

section \<open>Parallel composition\<close>

lemma interleavings_Nil_right: "interleavings xs [] = [xs]"
  by (cases xs) simp_all

lemma interleavings_set:
  "zs \<in> set (interleavings xs ys) \<Longrightarrow> set zs = set xs \<union> set ys"
  by (induction xs ys arbitrary: zs rule: interleavings.induct) auto

lemma traces_nonempty: "b \<in> set (traces outcome t) \<Longrightarrow> b \<noteq> []"
  by (cases t) auto

lemma parallel_traces_pair:
  "es \<in> set (parallel_traces outcome [A, B])
     \<longleftrightarrow> (\<exists>a\<in>set (traces outcome A). \<exists>b\<in>set (traces outcome B).
            es \<in> set (interleavings a b))"
  by (auto simp: interleavings_Nil_right)

text \<open>
  C5. In a parallel composite of \<open>A\<close> and \<open>B\<close> in which \<open>A\<close> fails with the error \<open>e\<close>
  and \<open>B\<close> succeeds, the leaves of both children are started, and in every possible
  run the report of the composite, the failure \<open>e\<close>, is the last event: all the events
  of a run of \<open>B\<close>, up to its last one, which is the end of \<open>B\<close>, come before it.
\<close>

theorem parallel_waits_for_all:
  assumes "snd (run outcome A) = Some e"
    and "snd (run outcome B) = None"
    and "t \<in> set (traces outcome (Parallel [A, B]))"
  shows "run outcome (Parallel [A, B])
           = (fst (run outcome A) @ fst (run outcome B), Some e)
    \<and> (\<exists>es a b. t = es @ [Reported (Some e)]
          \<and> a \<in> set (traces outcome A) \<and> b \<in> set (traces outcome B)
          \<and> es \<in> set (interleavings a b)
          \<and> b \<noteq> [] \<and> set b \<subseteq> set es \<and> last b \<in> set es)"
proof -
  obtain sa sb where ra: "run outcome A = (sa, Some e)" and rb: "run outcome B = (sb, None)"
    using assms(1,2) by (cases "run outcome A", cases "run outcome B") auto
  then have r: "run outcome (Parallel [A, B])
             = (fst (run outcome A) @ fst (run outcome B), Some e)"
    by simp
  from assms(3) r obtain es where t: "t = es @ [Reported (Some e)]"
    and "es \<in> set (parallel_traces outcome [A, B])"
    by auto
  then obtain a b where ab: "a \<in> set (traces outcome A)" "b \<in> set (traces outcome B)"
    "es \<in> set (interleavings a b)"
    unfolding parallel_traces_pair by blast
  from ab(2) have ne: "b \<noteq> []" by (rule traces_nonempty)
  from ab(3) have "set b \<subseteq> set es" by (simp add: interleavings_set)
  moreover from ne have "last b \<in> set b" by simp
  ultimately have "set b \<subseteq> set es" "last b \<in> set es" by auto
  with r t ab ne show ?thesis by blast
qed

theorem parallel_waits_for_all_witness:
  "run (\<lambda>n. if n = WatchHTML then Some ''watch failed'' else None)
       (Parallel [Leaf WatchHTML, Leaf WatchCSS])
     = ([WatchHTML, WatchCSS], Some ''watch failed'')
   \<and> (\<exists>es b. [Started WatchHTML, Finished WatchHTML (Some ''watch failed''),
               Started WatchCSS, Finished WatchCSS None, Reported (Some ''watch failed'')]
              = es @ [Reported (Some ''watch failed'')]
         \<and> b \<in> set (traces (\<lambda>n. if n = WatchHTML then Some ''watch failed'' else None)
                      (Leaf WatchCSS))
         \<and> last b \<in> set es)"
proof -
  let ?o = "\<lambda>n. if n = WatchHTML then Some ''watch failed'' else None"
  let ?t = "[Started WatchHTML, Finished WatchHTML (Some ''watch failed''),
             Started WatchCSS, Finished WatchCSS None, Reported (Some ''watch failed'')]"
  have a: "snd (run ?o (Leaf WatchHTML)) = Some ''watch failed''" by simp
  have b: "snd (run ?o (Leaf WatchCSS)) = None" by simp
  have t: "?t \<in> set (traces ?o (Parallel [Leaf WatchHTML, Leaf WatchCSS]))"
    by simp
  note w = parallel_waits_for_all [OF a b t]
  from w have "run ?o (Parallel [Leaf WatchHTML, Leaf WatchCSS])
                 = ([WatchHTML, WatchCSS], Some ''watch failed'')"
    by simp
  moreover from w have "\<exists>es b. ?t = es @ [Reported (Some ''watch failed'')]
         \<and> b \<in> set (traces ?o (Leaf WatchCSS)) \<and> last b \<in> set es"
    by (elim conjE exE) blast
  ultimately show ?thesis by (intro conjI)
qed

end
